theory Spec2Isabelle
  imports Main "HOL-Library.Word"
begin

unbundle bit_operations_syntax

section \<open>Python strings\<close>

text \<open>
  A Python \<^verbatim>\<open>str\<close> is a sequence of Unicode code points; \<^verbatim>\<open>len\<close>, slicing, the \<^verbatim>\<open>re\<close>
  module and \<^verbatim>\<open>str.strip\<close> all count code points. A string is therefore a list of code
  points. The literals of the source that are not ASCII (the Chinese messages) are written
  as lists of code points.
\<close>

type_synonym pystr = "nat list"

definition ascii :: "string \<Rightarrow> pystr" where
  "ascii cs = map of_char cs"

text \<open>\<^verbatim>\<open>s.startswith(p)\<close> and \<^verbatim>\<open>p in s\<close>.\<close>

fun startswith :: "pystr \<Rightarrow> pystr \<Rightarrow> bool" where
  "startswith s [] = True"
| "startswith [] (p # ps) = False"
| "startswith (c # cs) (p # ps) = (c = p \<and> startswith cs ps)"

fun contains :: "pystr \<Rightarrow> pystr \<Rightarrow> bool" where
  "contains [] p = (p = [])"
| "contains (c # cs) p = (startswith (c # cs) p \<or> contains cs p)"

text \<open>
  \<^verbatim>\<open>str.isspace\<close> for one code point; the class \<^verbatim>\<open>\s\<close> of \<^verbatim>\<open>re\<close> on \<^verbatim>\<open>str\<close> patterns and
  \<^verbatim>\<open>str.strip()\<close> use the same set.
\<close>

definition is_space :: "nat \<Rightarrow> bool" where
  "is_space c = ((9 \<le> c \<and> c \<le> 13) \<or> (28 \<le> c \<and> c \<le> 32) \<or> c = 0x85 \<or> c = 0xA0
     \<or> c = 0x1680 \<or> (0x2000 \<le> c \<and> c \<le> 0x200A) \<or> c = 0x2028 \<or> c = 0x2029
     \<or> c = 0x202F \<or> c = 0x205F \<or> c = 0x3000)"

definition lstrip :: "pystr \<Rightarrow> pystr" where
  "lstrip s = dropWhile is_space s"

definition rstrip :: "pystr \<Rightarrow> pystr" where
  "rstrip s = rev (dropWhile is_space (rev s))"

definition strip :: "pystr \<Rightarrow> pystr" where
  "strip s = rstrip (lstrip s)"

text \<open>
  \<^verbatim>\<open>str.splitlines()\<close>: the line boundaries are LF, VT, FF, CR, CR LF (one boundary), FS, GS,
  RS, NEL, LS and PS; the boundaries are dropped and a final boundary opens no empty line.
\<close>

definition is_linebreak :: "nat \<Rightarrow> bool" where
  "is_linebreak c = ((0xA \<le> c \<and> c \<le> 0xD) \<or> (0x1C \<le> c \<and> c \<le> 0x1E) \<or> c = 0x85
     \<or> c = 0x2028 \<or> c = 0x2029)"

fun splitlines_from :: "pystr \<Rightarrow> pystr \<Rightarrow> pystr list" where
  "splitlines_from cur [] = (if cur = [] then [] else [cur])"
| "splitlines_from cur [c] =
     (if is_linebreak c then [cur] else [cur @ [c]])"
| "splitlines_from cur (c # d # ds) =
     (if c = 0xD \<and> d = 0xA then cur # splitlines_from [] ds
      else if is_linebreak c then cur # splitlines_from [] (d # ds)
      else splitlines_from (cur @ [c]) (d # ds))"

definition splitlines :: "pystr \<Rightarrow> pystr list" where
  "splitlines s = splitlines_from [] s"

text \<open>\<^verbatim>\<open>sep.join(parts)\<close>.\<close>

fun join :: "pystr \<Rightarrow> pystr list \<Rightarrow> pystr" where
  "join sep [] = []"
| "join sep [x] = x"
| "join sep (x # y # ys) = x @ sep @ join sep (y # ys)"

text \<open>\<^verbatim>\<open>str(i)\<close> of a Python \<^verbatim>\<open>int\<close>: decimal digits, a minus sign when negative.\<close>

fun digits :: "nat \<Rightarrow> pystr" where
  "digits n = (if n < 10 then [48 + n] else digits (n div 10) @ [48 + n mod 10])"

declare digits.simps [simp del]

definition str_int :: "int \<Rightarrow> pystr" where
  "str_int i = (if i < 0 then 45 # digits (nat (- i)) else digits (nat i))"

section \<open>JSON values and the Python objects they load to\<close>

text \<open>
  What \<^verbatim>\<open>json.loads\<close> returns: \<^verbatim>\<open>None\<close>, a \<^verbatim>\<open>bool\<close>, an \<^verbatim>\<open>int\<close>, a \<^verbatim>\<open>float\<close> (its
  IEEE-754 binary64 bit pattern), a \<^verbatim>\<open>str\<close>, a \<^verbatim>\<open>list\<close>, or a \<^verbatim>\<open>dict\<close> with string keys
  (its items in insertion order).
\<close>

datatype json =
    JNull
  | JBool bool
  | JInt int
  | JFloat "64 word"
  | JStr pystr
  | JArr "json list"
  | JObj "(pystr \<times> json) list"

text \<open>Python truth value. A float is false when it is \<open>+0.0\<close> or \<open>-0.0\<close>: all bits but the sign are 0.\<close>

fun truthy :: "json \<Rightarrow> bool" where
  "truthy JNull = False"
| "truthy (JBool b) = b"
| "truthy (JInt i) = (i \<noteq> 0)"
| "truthy (JFloat w) = (push_bit 1 w \<noteq> 0)"
| "truthy (JStr s) = (s \<noteq> [])"
| "truthy (JArr xs) = (xs \<noteq> [])"
| "truthy (JObj kv) = (kv \<noteq> [])"

text \<open>\<^verbatim>\<open>a or b\<close>, and \<^verbatim>\<open>d.get(k)\<close> on a dict (\<^verbatim>\<open>None\<close> when the key is missing).\<close>

definition py_or :: "json \<Rightarrow> json \<Rightarrow> json" where
  "py_or a b = (if truthy a then a else b)"

definition dict_get :: "(pystr \<times> json) list \<Rightarrow> pystr \<Rightarrow> json" where
  "dict_get kv k = (case map_of kv k of None \<Rightarrow> JNull | Some v \<Rightarrow> v)"

text \<open>
  \<^verbatim>\<open>str(v)\<close>: a \<^verbatim>\<open>str\<close> is returned as it is; the rendering of every other value (Python's
  \<^verbatim>\<open>repr\<close> of numbers, lists and dicts) is a parameter.
\<close>

definition py_str :: "(json \<Rightarrow> pystr) \<Rightarrow> json \<Rightarrow> pystr" where
  "py_str py_repr v = (case v of JStr s \<Rightarrow> s | _ \<Rightarrow> py_repr v)"

section \<open>The dispatcher: \<^verbatim>\<open>tool_dispatcher.py\<close>\<close>

subsection \<open>The two tool-call patterns\<close>

text \<open>
  A letter of a pattern under \<^verbatim>\<open>re.IGNORECASE\<close> (the keywords are written in upper case):
  it matches itself, its lower-case form, and the code points Python's \<^verbatim>\<open>re\<close> treats as
  case variants: U+017F for S, U+212A for K, U+0130 and U+0131 for I.
\<close>

definition ci_match :: "nat \<Rightarrow> nat \<Rightarrow> bool" where
  "ci_match p c = (c = p \<or> (0x41 \<le> p \<and> p \<le> 0x5A \<and> c = p + 32) \<or> (p = 0x53 \<and> c = 0x17F)
     \<or> (p = 0x4B \<and> c = 0x212A) \<or> (p = 0x49 \<and> (c = 0x130 \<or> c = 0x131)))"

text \<open>A keyword at the start of \<open>s\<close>, letter by letter; the result is what follows it.\<close>

fun match_keyword :: "pystr \<Rightarrow> pystr \<Rightarrow> pystr option" where
  "match_keyword [] s = Some s"
| "match_keyword (p # ps) [] = None"
| "match_keyword (p # ps) (c # cs) = (if ci_match p c then match_keyword ps cs else None)"

text \<open>
  The class \<^verbatim>\<open>[A-Za-z0-9_]\<close> under \<^verbatim>\<open>re.IGNORECASE\<close>: the 63 ASCII characters and the four
  code points U+0130, U+0131, U+017F, U+212A.
\<close>

definition is_name_char :: "nat \<Rightarrow> bool" where
  "is_name_char c = ((0x30 \<le> c \<and> c \<le> 0x39) \<or> (0x41 \<le> c \<and> c \<le> 0x5A) \<or> c = 0x5F
     \<or> (0x61 \<le> c \<and> c \<le> 0x7A) \<or> c = 0x130 \<or> c = 0x131 \<or> c = 0x17F \<or> c = 0x212A)"

text \<open>
  \<^verbatim>\<open>_TOOL_CALL_RE.match(line)\<close> for
  \<^verbatim>\<open>CALL_TOOL:\s*([A-Za-z0-9_]+)(?:\s+(.*))?$\<close>. The result is group 1 and group 2
  (\<open>None\<close> when the optional group took no part). After the keyword the space run and the
  name are the longest ones (a shorter one leaves a character the next item refuses). What
  follows the name is empty (group 2 absent), or a non-empty space run, then group 2 up to
  the first line feed, then the end of the string or one last line feed.
\<close>

definition TOOL_CALL_RE_match :: "pystr \<Rightarrow> (pystr \<times> pystr option) option" where
  "TOOL_CALL_RE_match s =
     (case match_keyword (ascii ''CALL_TOOL:'') s of
        None \<Rightarrow> None
      | Some r \<Rightarrow>
          (let r1 = dropWhile is_space r;
               name = takeWhile is_name_char r1;
               rest = dropWhile is_name_char r1
           in if name = [] then None
              else if rest = [] then Some (name, None)
              else
                (let w = takeWhile is_space rest;
                     r2 = dropWhile is_space rest;
                     g = takeWhile (\<lambda>c. c \<noteq> 0xA) r2;
                     t = dropWhile (\<lambda>c. c \<noteq> 0xA) r2
                 in if w \<noteq> [] \<and> (t = [] \<or> t = [0xA]) then Some (name, Some g) else None)))"

text \<open>
  \<^verbatim>\<open>_TOOL_CALL_JSON_RE.search(text)\<close> for \<^verbatim>\<open>CALL_TOOL_JSON:\s*(\{.*\})\<close> with
  \<^verbatim>\<open>IGNORECASE | DOTALL\<close>; the result is group 1. At one position: the keyword, the space
  run, an opening brace, and, \<^verbatim>\<open>.*\<close> being greedy and matching line feeds too, everything up
  to the last closing brace of the whole text. The search takes the first position that
  matches.
\<close>

definition json_group_here :: "pystr \<Rightarrow> pystr option" where
  "json_group_here t =
     (case match_keyword (ascii ''CALL_TOOL_JSON:'') t of
        None \<Rightarrow> None
      | Some r \<Rightarrow>
          (case dropWhile is_space r of
             [] \<Rightarrow> None
           | c # b \<Rightarrow>
               if c = 0x7B \<and> 0x7D \<in> set b
               then Some (0x7B # rev (dropWhile (\<lambda>c. c \<noteq> 0x7D) (rev b)))
               else None))"

fun TOOL_CALL_JSON_RE_search :: "pystr \<Rightarrow> pystr option" where
  "TOOL_CALL_JSON_RE_search [] = None"
| "TOOL_CALL_JSON_RE_search (c # cs) =
     (case json_group_here (c # cs) of
        Some g \<Rightarrow> Some g
      | None \<Rightarrow> TOOL_CALL_JSON_RE_search cs)"

subsection \<open>\<^verbatim>\<open>_parse_tool_call\<close>\<close>

text \<open>
  The body of the \<^verbatim>\<open>try\<close> once \<^verbatim>\<open>json.loads\<close> has returned \<open>payload\<close>. The result \<open>None\<close>
  stands for both ways of leaving the block without returning: \<open>name\<close> is false, or a
  call raised (\<^verbatim>\<open>payload.get\<close> on a value that is no dict, \<^verbatim>\<open>name.strip()\<close> on a value
  that is no \<^verbatim>\<open>str\<close>) and \<^verbatim>\<open>except Exception: pass\<close> swallowed it.
\<close>

definition parse_json_payload :: "(json \<Rightarrow> pystr) \<Rightarrow> json \<Rightarrow> (pystr \<times> pystr) option" where
  "parse_json_payload py_repr payload =
     (case payload of
        JObj kv \<Rightarrow>
          (let name = py_or (dict_get kv (ascii ''tool'')) (dict_get kv (ascii ''name''));
               args = py_or (py_or (dict_get kv (ascii ''args''))
                                   (dict_get kv (ascii ''arguments''))) (JStr [])
           in if truthy name
              then (case name of
                      JStr s \<Rightarrow> Some (strip s, strip (py_str py_repr args))
                    | _ \<Rightarrow> None)
              else None)
      | _ \<Rightarrow> None)"

text \<open>The loop over \<^verbatim>\<open>text.splitlines()\<close>.\<close>

fun parse_lines :: "pystr list \<Rightarrow> (pystr \<times> pystr) option" where
  "parse_lines [] = None"
| "parse_lines (l # ls) =
     (let line = strip l
      in if line = [] then parse_lines ls
         else (case TOOL_CALL_RE_match line of
                 Some (g1, g2) \<Rightarrow>
                   Some (strip g1, strip (case g2 of None \<Rightarrow> [] | Some a \<Rightarrow> a))
               | None \<Rightarrow> parse_lines ls))"

text \<open>
  \<^verbatim>\<open>json.loads\<close> is a parameter: \<open>None\<close> when it raises. The JSON form is tried first; when
  it gives no result the lines are tried.
\<close>

definition parse_tool_call ::
  "(pystr \<Rightarrow> json option) \<Rightarrow> (json \<Rightarrow> pystr) \<Rightarrow> pystr \<Rightarrow> (pystr \<times> pystr) option" where
  "parse_tool_call json_loads py_repr text =
     (if text = [] then None
      else
        (case (case TOOL_CALL_JSON_RE_search text of
                 None \<Rightarrow> None
               | Some g \<Rightarrow>
                   (case json_loads g of
                      None \<Rightarrow> None
                    | Some payload \<Rightarrow> parse_json_payload py_repr payload)) of
           Some r \<Rightarrow> Some r
         | None \<Rightarrow> parse_lines (splitlines text)))"

subsection \<open>The time-query short circuit\<close>

text \<open>
  \<^verbatim>\<open>_TIME_QUERY_RE\<close> is an alternation of literal phrases (none of their characters has a
  case variant, so \<^verbatim>\<open>re.I\<close> changes nothing); \<^verbatim>\<open>search\<close> succeeds when one of them occurs
  in the prompt. The third alternative is U+73B0 U+5728 U+662F followed by one of two
  endings.
\<close>

definition time_phrases :: "pystr list" where
  "time_phrases =
     [[0x4ECA, 0x5E74, 0x662F, 0x54EA, 0x5E74],
      [0x4ECA, 0x5E74, 0x662F, 0x54EA, 0x4E00, 0x5E74],
      [0x73B0, 0x5728, 0x662F] @ [0x54EA, 0x5E74],
      [0x73B0, 0x5728, 0x662F] @ [0x4EC0, 0x4E48, 0x5E74],
      [0x5F53, 0x524D, 0x5E74, 0x4EFD],
      [0x73B0, 0x5728, 0x662F, 0x54EA, 0x4E00, 0x5E74],
      [0x73B0, 0x5728, 0x662F, 0x4EC0, 0x4E48, 0x5E74]]"

definition TIME_QUERY_RE_search :: "pystr \<Rightarrow> bool" where
  "TIME_QUERY_RE_search s = list_ex (contains s) time_phrases"

text \<open>\<open>year\<close> is \<^verbatim>\<open>datetime.now().year\<close>.\<close>

definition answer_time_shortcircuit :: "int \<Rightarrow> pystr \<Rightarrow> pystr option" where
  "answer_time_shortcircuit year user_prompt =
     (if TIME_QUERY_RE_search user_prompt
      then Some ([0x4ECA, 0x5E74, 0x662F] @ ascii '' '' @ str_int year @ ascii '' ''
                   @ [0x5E74, 0x3002])
      else None)"

subsection \<open>\<^verbatim>\<open>run_with_tools\<close>\<close>

text \<open>
  An exception is kept as its message \<^verbatim>\<open>str(e)\<close>, the only thing the dispatcher reads of
  it. The model function and the tools are callables that may change the world \<open>'w\<close> and
  may raise. A tool returns the text \<^verbatim>\<open>f"{tool_result}"\<close> puts into the observation.
\<close>

datatype exn = PyException (message: pystr)

type_synonym 'w llm = "pystr \<Rightarrow> 'w \<Rightarrow> (exn + pystr) \<times> 'w"

record 'w Tool =
  name :: pystr
  func :: "pystr \<Rightarrow> 'w \<Rightarrow> (exn + pystr) \<times> 'w"
  description :: pystr

text \<open>
  What the dispatcher takes from outside the file: \<^verbatim>\<open>json.loads\<close> and \<^verbatim>\<open>str\<close> (above),
  \<^verbatim>\<open>inject_persona_to_system\<close> (module \<^verbatim>\<open>prompt_inject\<close>), the year of \<^verbatim>\<open>datetime.now()\<close>,
  and the text of \<^verbatim>\<open>f"{elapsed:.2f}"\<close> for the two readings of \<^verbatim>\<open>time.time()\<close> around a
  tool call (the world before and after the call).
\<close>

record 'w pyenv =
  json_loads :: "pystr \<Rightarrow> json option"
  py_repr :: "json \<Rightarrow> pystr"
  inject_persona_to_system :: "pystr option \<Rightarrow> pystr"
  now_year :: "'w \<Rightarrow> int"
  elapsed_2f :: "'w \<Rightarrow> 'w \<Rightarrow> pystr"

text \<open>The calls made, in order: the model with its context, a tool with its name and arguments.\<close>

datatype event = ModelCall pystr | ToolCall pystr pystr

text \<open>\<^verbatim>\<open>name2tool = {t.name: t for t in tools}\<close>: a later tool of the same name replaces an earlier one.\<close>

definition name2tool :: "'w Tool list \<Rightarrow> pystr \<Rightarrow> 'w Tool option" where
  "name2tool tools = map_of (rev (map (\<lambda>t. (name t, t)) tools))"

text \<open>The text appended for an unknown tool (line 123).\<close>

definition tool_error :: "pystr \<Rightarrow> pystr \<Rightarrow> pystr" where
  "tool_error tool_name response =
     [0xA, 0xA] @ ascii ''[ToolError] '' @ [0x672A, 0x627E, 0x5230, 0x5DE5, 0x5177] @ ascii '': ''
     @ tool_name
     @ [0xA, 0x6A21, 0x578B, 0x539F, 0x6587] @ ascii '':'' @ [0xA]
     @ response
     @ [0xA, 0x8BF7, 0x4E0D, 0x8981, 0x518D, 0x5C1D, 0x8BD5, 0x8C03, 0x7528, 0x4E0D, 0x5B58,
        0x5728, 0x7684, 0x5DE5, 0x5177, 0x3002]"

text \<open>The observation (lines 151 to 154) and the two appends of lines 155 and 156.\<close>

definition observation :: "pystr \<Rightarrow> pystr \<Rightarrow> pystr \<Rightarrow> pystr \<Rightarrow> pystr" where
  "observation tool_name tool_args tool_result elapsed =
     [0xA, 0xA] @ ascii ''[ToolInvocation]'' @ [0xA] @ ascii ''Tool: '' @ tool_name
     @ [0xA] @ ascii ''Args: '' @ tool_args
     @ [0xA] @ ascii ''Result (truncated):'' @ [0xA] @ tool_result @ [0xA]
     @ ascii ''('' @ [0x6267, 0x884C, 0x8017, 0x65F6] @ ascii '': '' @ elapsed @ ascii ''s)'' @ [0xA]"

definition continue_hint :: pystr where
  "continue_hint =
     [0xA, 0x8BF7, 0x57FA, 0x4E8E, 0x4E0A, 0x9762, 0x7684, 0x5DE5, 0x5177, 0x7ED3, 0x679C, 0x7EE7,
      0x7EED, 0x5E76, 0x751F, 0x6210, 0x6700, 0x7EC8, 0x56DE, 0x7B54, 0xFF08, 0x5982, 0x679C,
      0x9700, 0x8981, 0x53EF, 0x518D, 0x6B21, 0x53D1, 0x51FA]
     @ ascii '' CALL_TOOL: '' @ [0x6307, 0x4EE4, 0xFF09, 0x3002]"

definition after_tool :: "pystr \<Rightarrow> pystr \<Rightarrow> pystr \<Rightarrow> pystr" where
  "after_tool context response obs =
     context @ [0xA, 0xA] @ strip response @ [0xA] @ obs @ continue_hint"

definition final_hint :: pystr where
  "final_hint =
     [0xA, 0xA, 0x5DF2, 0x8FBE, 0x5230, 0x6700, 0x5927, 0x5DE5, 0x5177, 0x8C03, 0x7528, 0x6B21,
      0x6570, 0xFF0C, 0x8BF7, 0x57FA, 0x4E8E, 0x73B0, 0x6709, 0x4FE1, 0x606F, 0x7ED9, 0x51FA,
      0x6700, 0x7EC8, 0x56DE, 0x7B54, 0x3002]"

definition llm_fail :: "exn \<Rightarrow> pystr" where
  "llm_fail e = ascii ''LLM '' @ [0x8C03, 0x7528, 0x5931, 0x8D25, 0xFF1A] @ message e"

definition llm_final_fail :: "exn \<Rightarrow> pystr" where
  "llm_final_fail e =
     ascii ''LLM '' @ [0x8C03, 0x7528, 0x5931, 0x8D25, 0xFF08, 0x7EC8, 0x7ED3, 0x8F6E, 0xFF09, 0xFF1A]
     @ message e"

definition tool_exception :: "exn \<Rightarrow> pystr" where
  "tool_exception e = [0x5DE5, 0x5177, 0x6267, 0x884C, 0x5F02, 0x5E38, 0xFF1A] @ message e"

text \<open>
  The \<^verbatim>\<open>for\<close> loop of line 107 with \<open>k\<close> iterations left, and, at \<open>k = 0\<close>, the last call
  after the loop (lines 158 to 163). The result is the answer, the world and the calls made.
\<close>

fun rounds ::
  "'w pyenv \<Rightarrow> 'w llm \<Rightarrow> (pystr \<Rightarrow> 'w Tool option) \<Rightarrow> nat \<Rightarrow> pystr \<Rightarrow> 'w \<Rightarrow> event list
     \<Rightarrow> pystr \<times> 'w \<times> event list" where
  "rounds E llm_callable n2t 0 context w tr =
     (case llm_callable (context @ final_hint) w of
        (Inl e, w1) \<Rightarrow> (llm_final_fail e, w1, tr @ [ModelCall (context @ final_hint)])
      | (Inr final, w1) \<Rightarrow> (final, w1, tr @ [ModelCall (context @ final_hint)]))"
| "rounds E llm_callable n2t (Suc k) context w tr =
     (case llm_callable context w of
        (Inl e, w1) \<Rightarrow> (llm_fail e, w1, tr @ [ModelCall context])
      | (Inr response, w1) \<Rightarrow>
          (case parse_tool_call (json_loads E) (py_repr E) response of
             None \<Rightarrow> (response, w1, tr @ [ModelCall context])
           | Some (tool_name, tool_args) \<Rightarrow>
               (case n2t tool_name of
                  None \<Rightarrow>
                    rounds E llm_callable n2t k (context @ tool_error tool_name response) w1
                      (tr @ [ModelCall context])
                | Some tool \<Rightarrow>
                    (case func tool tool_args w1 of
                       (r, w2) \<Rightarrow>
                         (let tool_result = (case r of Inr res \<Rightarrow> res | Inl e \<Rightarrow> tool_exception e);
                              obs = observation tool_name tool_args tool_result (elapsed_2f E w1 w2)
                          in rounds E llm_callable n2t k (after_tool context response obs) w2
                               (tr @ [ModelCall context, ToolCall tool_name tool_args]))))))"

text \<open>
  \<^verbatim>\<open>range(max_tool_calls + 1)\<close> is empty when its argument is not positive. The parameter
  \<^verbatim>\<open>call_timeout_sec\<close> is never read.
\<close>

definition run_with_tools ::
  "'w pyenv \<Rightarrow> 'w llm \<Rightarrow> pystr \<Rightarrow> 'w Tool list \<Rightarrow> pystr option \<Rightarrow> int \<Rightarrow> 'w
     \<Rightarrow> pystr \<times> 'w \<times> event list" where
  "run_with_tools E llm_callable user_prompt tools system_prompt max_tool_calls w =
     (case answer_time_shortcircuit (now_year E w) user_prompt of
        Some time_answer \<Rightarrow> (time_answer, w, [])
      | None \<Rightarrow>
          (let system_with_persona = inject_persona_to_system E system_prompt;
               context_parts = (if system_with_persona \<noteq> [] then [strip system_with_persona] else [])
                                 @ [strip user_prompt];
               context = join [0xA, 0xA] context_parts
           in rounds E llm_callable (name2tool tools) (nat (max_tool_calls + 1)) context w []))"

text \<open>The contexts the model was called with.\<close>

fun model_calls :: "event list \<Rightarrow> pystr list" where
  "model_calls [] = []"
| "model_calls (ModelCall c # es) = c # model_calls es"
| "model_calls (ToolCall n a # es) = model_calls es"

subsection \<open>Collaborators used in the examples\<close>

text \<open>The stand-in of lines 14 and 15 for a missing \<^verbatim>\<open>prompt_inject\<close>: \<^verbatim>\<open>return x or ""\<close>.\<close>

definition inject_persona_fallback :: "pystr option \<Rightarrow> pystr" where
  "inject_persona_fallback x = (case x of None \<Rightarrow> [] | Some s \<Rightarrow> s)"

text \<open>
  A decoder for the one shape of JSON document the examples use: an object with distinct
  keys whose members are strings without escapes, with JSON white space between the tokens.
  It rejects every other text. On a document of that shape it returns what \<^verbatim>\<open>json.loads\<close>
  returns, and the other texts it is applied to below are texts \<^verbatim>\<open>json.loads\<close> rejects too
  (data after the document).
\<close>

definition json_ws :: "pystr \<Rightarrow> pystr" where
  "json_ws s = dropWhile (\<lambda>c. c = 0x20 \<or> c = 0x9 \<or> c = 0xA \<or> c = 0xD) s"

definition json_plain :: "nat \<Rightarrow> bool" where
  "json_plain c = (c \<noteq> 0x22 \<and> c \<noteq> 0x5C \<and> 0x20 \<le> c)"

definition json_string :: "pystr \<Rightarrow> (pystr \<times> pystr) option" where
  "json_string s =
     (case s of
        [] \<Rightarrow> None
      | c # cs \<Rightarrow>
          if c = 0x22
          then (case dropWhile json_plain cs of
                  [] \<Rightarrow> None
                | q # r \<Rightarrow> if q = 0x22 then Some (takeWhile json_plain cs, r) else None)
          else None)"

fun json_members :: "nat \<Rightarrow> pystr \<Rightarrow> ((pystr \<times> json) list \<times> pystr) option" where
  "json_members 0 s = None"
| "json_members (Suc n) s =
     (case json_string (json_ws s) of
        None \<Rightarrow> None
      | Some (k, r1) \<Rightarrow>
          (case json_ws r1 of
             [] \<Rightarrow> None
           | c # r2 \<Rightarrow>
               if c = 0x3A
               then (case json_string (json_ws r2) of
                       None \<Rightarrow> None
                     | Some (v, r3) \<Rightarrow>
                         (case json_ws r3 of
                            [] \<Rightarrow> None
                          | d # r4 \<Rightarrow>
                              if d = 0x2C
                              then (case json_members n r4 of
                                      None \<Rightarrow> None
                                    | Some (kvs, r5) \<Rightarrow> Some ((k, JStr v) # kvs, r5))
                              else if d = 0x7D then Some ([(k, JStr v)], r4)
                              else None))
               else None))"

definition json_loads_flat :: "pystr \<Rightarrow> json option" where
  "json_loads_flat s =
     (case json_ws s of
        [] \<Rightarrow> None
      | c # r \<Rightarrow>
          if c = 0x7B
          then (case json_ws r of
                  [] \<Rightarrow> None
                | d # r1 \<Rightarrow>
                    if d = 0x7D then (if json_ws r1 = [] then Some (JObj []) else None)
                    else (case json_members (length r) r of
                            None \<Rightarrow> None
                          | Some (kvs, r2) \<Rightarrow>
                              if json_ws r2 = [] \<and> distinct (map fst kvs) then Some (JObj kvs)
                              else None))
          else None)"

text \<open>A world without state, a model that asks for the tool \<open>Noop\<close> on every call, and that tool.\<close>

definition example_env :: "unit pyenv" where
  "example_env =
     \<lparr>json_loads = json_loads_flat, py_repr = (\<lambda>v. []),
      inject_persona_to_system = inject_persona_fallback,
      now_year = (\<lambda>w. 2026), elapsed_2f = (\<lambda>w1 w2. ascii ''0.00'')\<rparr>"

definition stub_llm :: "unit llm" where
  "stub_llm context w = (Inr (ascii ''CALL_TOOL: Noop''), w)"

definition noop_tool :: "unit Tool" where
  "noop_tool = \<lparr>name = ascii ''Noop'', func = (\<lambda>a w. (Inr [], w)), description = []\<rparr>"





text \<open>A model that asks for the tool \<open>Big\<close> on every call, and that tool, returning \<open>res\<close>.\<close>

definition big_llm :: "unit llm" where
  "big_llm context w = (Inr (ascii ''CALL_TOOL: Big''), w)"

definition big_tool :: "pystr \<Rightarrow> unit Tool" where
  "big_tool res = \<lparr>name = ascii ''Big'', func = (\<lambda>a w. (Inr res, w)), description = []\<rparr>"

section \<open>The fallback memory store: \<^verbatim>\<open>memory.py\<close>\<close>

text \<open>
  The exceptions the store's code can meet; all are subclasses of \<^verbatim>\<open>Exception\<close>.
\<close>

datatype pyerr = IndexError | KeyError | AttributeError | TypeError | ValueError | OSError

text \<open>
  \<^verbatim>\<open>texts\<close> and \<^verbatim>\<open>metadatas\<close> hold whatever the constructor loaded from the file, so they
  are Python values; a list is \<open>JArr\<close>.
\<close>

record JsonMemoryFallback =
  path :: pystr
  texts :: json
  metadatas :: json
  max_items :: int

text \<open>
  \<^verbatim>\<open>len(x)\<close>, \<^verbatim>\<open>x.pop(0)\<close> (the object after the call), \<^verbatim>\<open>x.append(v)\<close> and \<^verbatim>\<open>x[-1]\<close> on a
  Python value. The keys of a dict loaded from JSON are strings, so \<^verbatim>\<open>pop(0)\<close> and \<^verbatim>\<open>[-1]\<close>
  find no key.
\<close>

fun py_len :: "json \<Rightarrow> pyerr + nat" where
  "py_len (JStr s) = Inr (length s)"
| "py_len (JArr xs) = Inr (length xs)"
| "py_len (JObj kv) = Inr (length kv)"
| "py_len v = Inl TypeError"

fun py_pop0 :: "json \<Rightarrow> pyerr + json" where
  "py_pop0 (JArr []) = Inl IndexError"
| "py_pop0 (JArr (x # xs)) = Inr (JArr xs)"
| "py_pop0 (JObj kv) = Inl KeyError"
| "py_pop0 v = Inl AttributeError"

fun py_append :: "json \<Rightarrow> json \<Rightarrow> pyerr + json" where
  "py_append (JArr xs) v = Inr (JArr (xs @ [v]))"
| "py_append x v = Inl AttributeError"

fun py_last :: "json \<Rightarrow> pyerr + json" where
  "py_last (JArr []) = Inl IndexError"
| "py_last (JArr (x # xs)) = Inr (last (x # xs))"
| "py_last (JStr []) = Inl IndexError"
| "py_last (JStr (c # cs)) = Inr (JStr [last (c # cs)])"
| "py_last (JObj kv) = Inl KeyError"
| "py_last v = Inl TypeError"

text \<open>
  What the store takes from the operating system and the library. A file system maps a path
  to the text of the file there. The fields say what each call does this time:
  \<^item> \<open>getenv_max\<close>: \<^verbatim>\<open>os.getenv("AGENT_MAX_MEMORY_ITEMS")\<close>; \<open>py_int\<close>: \<^verbatim>\<open>int(s)\<close>, \<open>None\<close> when it raises;
  \<^item> \<open>read_ok\<close>: opening and reading the file succeeds;
  \<^item> \<open>makedirs_ok\<close>, \<open>replace_ok\<close>: \<^verbatim>\<open>os.makedirs\<close>, \<^verbatim>\<open>os.replace\<close> succeed;
  \<^item> \<open>mkstemp\<close>: the path of the new temporary file, \<open>None\<close> when \<^verbatim>\<open>tempfile.mkstemp\<close> raises;
  \<^item> \<open>json_dump\<close>: the text \<^verbatim>\<open>json.dump(..., ensure_ascii=False, indent=2)\<close> writes, \<open>None\<close> when it
    raises, and then \<open>partial_dump\<close> is what it had written;
  \<^item> \<open>write_fault\<close>: \<open>Some n\<close> when writing fails after \<open>n\<close> characters;
  \<^item> \<open>request_id\<close>: \<^verbatim>\<open>get_request_id()\<close>.
\<close>

type_synonym fs = "pystr \<Rightarrow> pystr option"

record osenv =
  expanduser :: "pystr \<Rightarrow> pystr"
  dirname :: "pystr \<Rightarrow> pystr"
  getenv_max :: "pystr option"
  py_int :: "pystr \<Rightarrow> int option"
  read_ok :: bool
  json_load :: "pystr \<Rightarrow> json option"
  makedirs_ok :: bool
  mkstemp :: "pystr option"
  json_dump :: "json \<Rightarrow> pystr option"
  partial_dump :: pystr
  write_fault :: "nat option"
  replace_ok :: bool
  request_id :: "pystr option"

text \<open>\<^verbatim>\<open>d.get(k, default)\<close>: the default only when the key is missing.\<close>

definition dict_get_default :: "(pystr \<times> json) list \<Rightarrow> pystr \<Rightarrow> json \<Rightarrow> json" where
  "dict_get_default kv k d = (case map_of kv k of None \<Rightarrow> d | Some v \<Rightarrow> v)"

text \<open>
  \<^verbatim>\<open>__init__\<close>. \<^verbatim>\<open>int(os.getenv(...))\<close> stands outside the \<^verbatim>\<open>try\<close> and may raise. Inside the
  \<^verbatim>\<open>try\<close>, a failure to read, to decode, or \<^verbatim>\<open>data.get\<close> on a value that is no dict is
  logged and the store starts empty.
\<close>

definition init :: "osenv \<Rightarrow> pystr \<Rightarrow> fs \<Rightarrow> pyerr + JsonMemoryFallback" where
  "init E p files =
     (case py_int E (case getenv_max E of None \<Rightarrow> ascii ''10000'' | Some v \<Rightarrow> v) of
        None \<Rightarrow> Inl ValueError
      | Some m \<Rightarrow>
          (let st = \<lparr>path = expanduser E p, texts = JArr [], metadatas = JArr [], max_items = m\<rparr>
           in case files (path st) of
                None \<Rightarrow> Inr st
              | Some content \<Rightarrow>
                  if read_ok E
                  then (case json_load E content of
                          Some (JObj data) \<Rightarrow>
                            Inr (st\<lparr>texts := dict_get_default data (ascii ''texts'') (JArr []),
                                   metadatas := dict_get_default data (ascii ''metadatas'') (JArr [])\<rparr>)
                        | _ \<Rightarrow> Inr st)
                  else Inr st))"

text \<open>
  \<^verbatim>\<open>add\<close>; \<open>now\<close> is \<^verbatim>\<open>time.time()\<close>. The first block is the \<^verbatim>\<open>try\<close> whose exceptions are
  dropped: what was popped before the exception stays popped. The rest can raise. The state
  is returned in both cases. \<open>meta\<close> is \<open>JNull\<close> for \<^verbatim>\<open>None\<close>.
\<close>

definition trim :: "JsonMemoryFallback \<Rightarrow> JsonMemoryFallback" where
  "trim st =
     (case py_len (texts st) of
        Inl e \<Rightarrow> st
      | Inr n \<Rightarrow>
          if max_items st \<le> int n
          then (case py_pop0 (texts st) of
                  Inl e \<Rightarrow> st
                | Inr ts \<Rightarrow>
                    (case py_pop0 (metadatas st) of
                       Inl e \<Rightarrow> st\<lparr>texts := ts\<rparr>
                     | Inr ms \<Rightarrow> st\<lparr>texts := ts, metadatas := ms\<rparr>))
          else st)"

definition new_meta :: "64 word \<Rightarrow> json \<Rightarrow> json" where
  "new_meta now meta = (if truthy meta then meta else JObj [(ascii ''timestamp'', JFloat now)])"

definition add ::
  "64 word \<Rightarrow> pystr \<Rightarrow> json \<Rightarrow> JsonMemoryFallback \<Rightarrow> (pyerr + nat) \<times> JsonMemoryFallback" where
  "add now txt meta st0 =
     (let st = trim st0
      in case py_len (texts st) of
           Inl e \<Rightarrow> (Inl e, st)
         | Inr idx \<Rightarrow>
             (case py_append (texts st) (JStr txt) of
                Inl e \<Rightarrow> (Inl e, st)
              | Inr ts \<Rightarrow>
                  (case py_append (metadatas st) (new_meta now meta) of
                     Inl e \<Rightarrow> (Inl e, st\<lparr>texts := ts\<rparr>)
                   | Inr ms \<Rightarrow> (Inr idx, st\<lparr>texts := ts, metadatas := ms\<rparr>))))"

text \<open>The document \<^verbatim>\<open>persist\<close> dumps.\<close>

definition state_doc :: "JsonMemoryFallback \<Rightarrow> json" where
  "state_doc st = JObj [(ascii ''texts'', texts st), (ascii ''metadatas'', metadatas st)]"

text \<open>
  Lines 68 to 74, after the replace: the request id is looked up in the last metadata when
  the context has none, and the log record takes \<^verbatim>\<open>len(self.texts)\<close>. Both can raise when the
  fields are no lists. The result is whether they did.
\<close>

definition log_success :: "osenv \<Rightarrow> JsonMemoryFallback \<Rightarrow> pyerr option" where
  "log_success E st =
     (case (if request_id E = None \<and> truthy (metadatas st)
            then (case py_last (metadatas st) of Inl e \<Rightarrow> Some e | Inr v \<Rightarrow> None)
            else None) of
        Some e \<Rightarrow> Some e
      | None \<Rightarrow> (case py_len (texts st) of Inl e \<Rightarrow> Some e | Inr n \<Rightarrow> None))"

text \<open>
  The body of the \<^verbatim>\<open>try\<close> in \<^verbatim>\<open>persist\<close>, step by step, with the file system it leaves.
  \<^verbatim>\<open>mkstemp\<close> creates the temporary file empty; a failed dump or write leaves a part of the
  text in it; \<^verbatim>\<open>os.replace\<close> moves it onto the store's path.
\<close>

definition persist_body :: "osenv \<Rightarrow> JsonMemoryFallback \<Rightarrow> fs \<Rightarrow> (pyerr + bool) \<times> fs" where
  "persist_body E st files =
     (if dirname E (path st) \<noteq> [] \<and> \<not> makedirs_ok E then (Inl OSError, files)
      else
        (case mkstemp E of
           None \<Rightarrow> (Inl OSError, files)
         | Some tmppath \<Rightarrow>
             (case json_dump E (state_doc st) of
                None \<Rightarrow> (Inl TypeError, files(tmppath \<mapsto> partial_dump E))
              | Some doc \<Rightarrow>
                  (case write_fault E of
                     Some n \<Rightarrow> (Inl OSError, files(tmppath \<mapsto> take n doc))
                   | None \<Rightarrow>
                       if replace_ok E
                       then (case log_success E st of
                               Some e \<Rightarrow> (Inl e, (files(tmppath := None))(path st \<mapsto> doc))
                             | None \<Rightarrow> (Inr True, (files(tmppath := None))(path st \<mapsto> doc)))
                       else (Inl OSError, files(tmppath \<mapsto> doc))))))"

text \<open>\<^verbatim>\<open>persist\<close>: \<^verbatim>\<open>except Exception\<close> logs and returns \<^verbatim>\<open>False\<close>.\<close>

definition persist :: "osenv \<Rightarrow> JsonMemoryFallback \<Rightarrow> fs \<Rightarrow> (pyerr + bool) \<times> fs" where
  "persist E st files =
     (case persist_body E st files of
        (Inl e, files1) \<Rightarrow> (Inr False, files1)
      | (Inr b, files1) \<Rightarrow> (Inr b, files1))"

section \<open>The page-fetch tool: \<^verbatim>\<open>tools_fetch.py\<close>\<close>

text \<open>
  The exception of a rendering try, with its \<^verbatim>\<open>str()\<close>: Playwright's \<^verbatim>\<open>TimeoutError\<close> or any
  other \<^verbatim>\<open>Exception\<close>.
\<close>

datatype pw_exn = PWTimeout pystr | PWOther pystr

text \<open>
  What the browser and the network do:
  \<^item> \<open>pw_import\<close>: \<open>None\<close> when the import of Playwright succeeds, else the text of its exception;
  \<^item> \<open>launch\<close>: for one attempt, the exception of \<^verbatim>\<open>sync_playwright()\<close>, \<^verbatim>\<open>launch\<close> or \<^verbatim>\<open>new_page\<close>,
    if one raises;
  \<^item> \<open>goto\<close>: for a URL, an attempt and a timeout in milliseconds, the exception of \<^verbatim>\<open>page.goto\<close>
    or \<^verbatim>\<open>page.content\<close>, or the content;
  \<^item> \<open>requests_get\<close>: for a URL and a timeout in seconds, the text of the exception of the
    \<^verbatim>\<open>requests\<close> import or call, or \<^verbatim>\<open>r.text\<close>.
\<close>

record fetch_env =
  pw_import :: "pystr option"
  launch :: "nat \<Rightarrow> pw_exn option"
  goto :: "pystr \<Rightarrow> nat \<Rightarrow> int \<Rightarrow> pw_exn + pystr"
  requests_get :: "pystr \<Rightarrow> int \<Rightarrow> pystr + pystr"

text \<open>The returned dict; its key \<^verbatim>\<open>text\<close> is the field \<open>page_text\<close>.\<close>

record fetch_result =
  source :: pystr
  page_text :: pystr
  error :: "pystr option"
  attempts :: nat

text \<open>\<^verbatim>\<open>last_err\<close> after a failed try; \<open>i\<close> is \<^verbatim>\<open>attempt + 1\<close>.\<close>

fun fail_msg :: "pw_exn \<Rightarrow> nat \<Rightarrow> pystr" where
  "fail_msg (PWTimeout te) i =
     ascii ''playwright timeout (attempt '' @ str_int (int i) @ ascii ''): '' @ te"
| "fail_msg (PWOther e) i =
     ascii ''playwright error (attempt '' @ str_int (int i) @ ascii ''): '' @ e"

text \<open>\<^verbatim>\<open>f"{last_err}"\<close>: \<^verbatim>\<open>None\<close> is printed as the word.\<close>

definition fmt_err :: "pystr option \<Rightarrow> pystr" where
  "fmt_err le = (case le of None \<Rightarrow> ascii ''None'' | Some m \<Rightarrow> m)"

text \<open>
  The \<^verbatim>\<open>for\<close> loop of line 29 with \<open>k\<close> iterations left: \<open>attempt\<close>, \<open>n\<close> (\<^verbatim>\<open>attempts\<close>), \<open>le\<close>
  (\<^verbatim>\<open>last_err\<close>), and the \<^verbatim>\<open>page.goto\<close> calls made so far, each with its attempt and its timeout
  in milliseconds. The result is the dict returned from inside the loop, if any, and the
  final \<open>n\<close>, \<open>le\<close> and calls.
\<close>

fun render_loop ::
  "fetch_env \<Rightarrow> pystr \<Rightarrow> int \<Rightarrow> nat \<Rightarrow> nat \<Rightarrow> nat \<Rightarrow> pystr option \<Rightarrow> (nat \<times> int) list
     \<Rightarrow> fetch_result option \<times> nat \<times> pystr option \<times> (nat \<times> int) list" where
  "render_loop E url timeout 0 attempt n le gs = (None, n, le, gs)"
| "render_loop E url timeout (Suc k) attempt n le gs =
     (case launch E attempt of
        Some x \<Rightarrow>
          render_loop E url timeout k (Suc attempt) (Suc n) (Some (fail_msg x (attempt + 1))) gs
      | None \<Rightarrow>
          (let cur_timeout = timeout * 2 ^ attempt;
               ms = cur_timeout * 1000
           in case goto E url attempt ms of
                Inr content \<Rightarrow>
                  (Some \<lparr>source = ascii ''playwright'', page_text = content, error = None,
                         attempts = Suc n\<rparr>, Suc n, le, gs @ [(attempt, ms)])
              | Inl x \<Rightarrow>
                  render_loop E url timeout k (Suc attempt) (Suc n)
                    (Some (fail_msg x (attempt + 1))) (gs @ [(attempt, ms)])))"

text \<open>
  \<^verbatim>\<open>fetch_rendered_page\<close>, with the \<^verbatim>\<open>page.goto\<close> calls it made. A failed import leaves
  \<^verbatim>\<open>attempts\<close> at 0; \<^verbatim>\<open>range(max_retries + 1)\<close> is empty when its argument is not positive.
\<close>

definition fetch_rendered_page ::
  "fetch_env \<Rightarrow> pystr \<Rightarrow> int \<Rightarrow> int \<Rightarrow> fetch_result \<times> (nat \<times> int) list" where
  "fetch_rendered_page E url timeout max_retries =
     (case (case pw_import E of
              Some e_play \<Rightarrow> (None, 0, Some (ascii ''playwright import/launch error: '' @ e_play), [])
            | None \<Rightarrow> render_loop E url timeout (nat (max_retries + 1)) 0 0 None []) of
        (Some res, n, le, gs) \<Rightarrow> (res, gs)
      | (None, n, le, gs) \<Rightarrow>
          (case requests_get E url (max (timeout * 2) 10) of
             Inr body \<Rightarrow>
               (\<lparr>source = ascii ''requests'', page_text = body,
                 error = Some (ascii ''playwright_failed: '' @ fmt_err le), attempts = n + 1\<rparr>, gs)
           | Inl e_req \<Rightarrow>
               (\<lparr>source = ascii ''error'', page_text = [],
                 error = Some (ascii ''playwright_failed: '' @ fmt_err le
                                 @ ascii ''; requests_failed: '' @ e_req),
                 attempts = n + 1\<rparr>, gs)))"

text \<open>A rendering try fails: the launch raises, or the page load does.\<close>

definition try_fails :: "fetch_env \<Rightarrow> pystr \<Rightarrow> int \<Rightarrow> nat \<Rightarrow> bool" where
  "try_fails E url timeout i =
     (case launch E i of
        Some x \<Rightarrow> True
      | None \<Rightarrow> (case goto E url i (timeout * 2 ^ i * 1000) of Inl x \<Rightarrow> True | Inr c \<Rightarrow> False))"

section \<open>Example states and environments\<close>

text \<open>A store with no record and a bound of 0, and a store that holds as many records as its bound.\<close>

definition empty_store :: JsonMemoryFallback where
  "empty_store = \<lparr>path = ascii ''m.json'', texts = JArr [], metadatas = JArr [], max_items = 0\<rparr>"

definition full_store :: JsonMemoryFallback where
  "full_store =
     \<lparr>path = ascii ''m.json'', texts = JArr [JStr (ascii ''a''), JStr (ascii ''b'')],
      metadatas = JArr [JObj [(ascii ''type'', JStr (ascii ''turn''))],
                        JObj [(ascii ''type'', JStr (ascii ''note''))]],
      max_items = 2\<rparr>"

text \<open>
  A store with one record, the text \<^verbatim>\<open>json.dump(..., ensure_ascii=False, indent=2)\<close> writes
  for it, and an environment in which every call succeeds; its \<open>json_dump\<close> and \<open>json_load\<close>
  are \<^verbatim>\<open>json.dump\<close> and \<^verbatim>\<open>json.load\<close> at this one document.
\<close>

definition sample_store :: JsonMemoryFallback where
  "sample_store =
     \<lparr>path = ascii ''m.json'', texts = JArr [JStr (ascii ''a'')],
      metadatas = JArr [JObj [(ascii ''type'', JStr (ascii ''note''))]], max_items = 10000\<rparr>"

definition sample_text :: pystr where
  "sample_text =
     ascii ''{'' @ [0xA] @ ascii ''  '' @ [0x22] @ ascii ''texts'' @ [0x22] @ ascii '': ['' @ [0xA]
     @ ascii ''    '' @ [0x22] @ ascii ''a'' @ [0x22] @ [0xA] @ ascii ''  ],'' @ [0xA]
     @ ascii ''  '' @ [0x22] @ ascii ''metadatas'' @ [0x22] @ ascii '': ['' @ [0xA]
     @ ascii ''    {'' @ [0xA] @ ascii ''      '' @ [0x22] @ ascii ''type'' @ [0x22] @ ascii '': ''
     @ [0x22] @ ascii ''note'' @ [0x22] @ [0xA] @ ascii ''    }'' @ [0xA] @ ascii ''  ]'' @ [0xA]
     @ ascii ''}''"

definition sample_env :: osenv where
  "sample_env =
     \<lparr>expanduser = (\<lambda>p. p), dirname = (\<lambda>p. []), getenv_max = None,
      py_int = (\<lambda>s. if s = ascii ''10000'' then Some 10000 else None),
      read_ok = True,
      json_load = (\<lambda>s. if s = sample_text then Some (state_doc sample_store) else None),
      makedirs_ok = True, mkstemp = Some (ascii ''.tmp.k3x9q2ab.json''),
      json_dump = (\<lambda>v. if v = state_doc sample_store then Some sample_text else None),
      partial_dump = [], write_fault = None, replace_ok = True, request_id = None\<rparr>"

text \<open>A browser whose first page load times out and whose second succeeds.\<close>

definition sample_fetch :: fetch_env where
  "sample_fetch =
     \<lparr>pw_import = None, launch = (\<lambda>a. None),
      goto = (\<lambda>u a ms. if a = 0 then Inl (PWTimeout (ascii ''Timeout 15000ms exceeded.''))
                        else Inr (ascii ''<p>ok</p>'')),
      requests_get = (\<lambda>u t. Inr [])\<rparr>"

section \<open>Properties of the dispatcher\<close>

subsection \<open>Strings and call traces\<close>

lemma startswith_iff: "startswith s p \<longleftrightarrow> (\<exists>r. s = p @ r)"
  by (induction s p rule: startswith.induct) auto

lemma contains_iff: "contains s p \<longleftrightarrow> (\<exists>a b. s = a @ p @ b)"
proof (induction s)
  case Nil
  then show ?case by auto
next
  case (Cons c cs)
  show ?case
  proof
    assume "contains (c # cs) p"
    then consider "startswith (c # cs) p" | "contains cs p" by auto
    then show "\<exists>a b. c # cs = a @ p @ b"
    proof cases
      case 1
      then obtain r where "c # cs = p @ r" by (auto simp: startswith_iff)
      then have "c # cs = [] @ p @ r" by simp
      then show ?thesis by blast
    next
      case 2
      then obtain a b where "cs = a @ p @ b" using Cons.IH by auto
      then have "c # cs = (c # a) @ p @ b" by simp
      then show ?thesis by blast
    qed
  next
    assume "\<exists>a b. c # cs = a @ p @ b"
    then obtain a b where ab: "c # cs = a @ p @ b" by auto
    show "contains (c # cs) p"
    proof (cases a)
      case Nil
      with ab have "startswith (c # cs) p" by (auto simp: startswith_iff)
      then show ?thesis by simp
    next
      case (Cons x a')
      with ab have "cs = a' @ p @ b" by simp
      then have "contains cs p" using Cons.IH by auto
      then show ?thesis by simp
    qed
  qed
qed

lemma contains_mid: "contains (a @ p @ b) p"
  by (auto simp: contains_iff)

lemma model_calls_append: "model_calls (xs @ ys) = model_calls xs @ model_calls ys"
  by (induction xs rule: model_calls.induct) auto

text \<open>
  One pass of the loop body either returns, having called the model once, or goes on with
  one round fewer, having called the model once and perhaps a tool.
\<close>

lemma round_step:
  "(\<exists>ans w1. rounds E llm n2t (Suc k) ctx w tr = (ans, w1, tr @ [ModelCall ctx]))
   \<or> (\<exists>ctx1 w1 more.
         rounds E llm n2t (Suc k) ctx w tr = rounds E llm n2t k ctx1 w1 (tr @ ModelCall ctx # more))"
proof (cases "llm ctx w")
  case (Pair r w1)
  show ?thesis
  proof (cases r)
    case (Inl e)
    with Pair show ?thesis by simp
  next
    case (Inr response)
    show ?thesis
    proof (cases "parse_tool_call (json_loads E) (py_repr E) response")
      case None
      with Pair Inr show ?thesis by simp
    next
      case (Some tc)
      obtain tn ta where tc: "tc = (tn, ta)" by (cases tc)
      show ?thesis
      proof (cases "n2t tn")
        case None
        with Pair Inr Some tc
        have "rounds E llm n2t (Suc k) ctx w tr =
            rounds E llm n2t k (ctx @ tool_error tn response) w1 (tr @ ModelCall ctx # [])"
          by simp
        then show ?thesis by blast
      next
        case tool: (Some tool)
        obtain r2 w2 where "func tool ta w1 = (r2, w2)" by (cases "func tool ta w1")
        with Pair Inr Some tc tool
        have "rounds E llm n2t (Suc k) ctx w tr =
            rounds E llm n2t k
              (after_tool ctx response (observation tn ta
                 (case r2 of Inr res \<Rightarrow> res | Inl e \<Rightarrow> tool_exception e) (elapsed_2f E w1 w2)))
              w2 (tr @ ModelCall ctx # [ToolCall tn ta])"
          by (simp add: Let_def)
        then show ?thesis by blast
      qed
    qed
  qed
qed

lemma rounds_trace_prefix:
  "\<exists>es. snd (snd (rounds E llm n2t k ctx w tr)) = tr @ es"
proof (induction k arbitrary: ctx w tr)
  case 0
  then show ?case by (auto split: prod.splits sum.splits)
next
  case (Suc k)
  from round_step [of E llm n2t k ctx w tr] show ?case
  proof
    assume "\<exists>ans w1. rounds E llm n2t (Suc k) ctx w tr = (ans, w1, tr @ [ModelCall ctx])"
    then show ?thesis by auto
  next
    assume "\<exists>ctx1 w1 more.
        rounds E llm n2t (Suc k) ctx w tr = rounds E llm n2t k ctx1 w1 (tr @ ModelCall ctx # more)"
    then obtain ctx1 w1 more where
      eq: "rounds E llm n2t (Suc k) ctx w tr = rounds E llm n2t k ctx1 w1 (tr @ ModelCall ctx # more)"
      by blast
    obtain es where "snd (snd (rounds E llm n2t k ctx1 w1 (tr @ ModelCall ctx # more)))
        = (tr @ ModelCall ctx # more) @ es"
      using Suc.IH by blast
    then show ?thesis unfolding eq by simp
  qed
qed

lemma rounds_first_call:
  "\<exists>es. snd (snd (rounds E llm n2t k ctx w tr)) =
     tr @ ModelCall (if k = 0 then ctx @ final_hint else ctx) # es"
proof (cases k)
  case 0
  then show ?thesis by (auto split: prod.splits sum.splits)
next
  case (Suc j)
  from round_step [of E llm n2t j ctx w tr] show ?thesis
  proof
    assume "\<exists>ans w1. rounds E llm n2t (Suc j) ctx w tr = (ans, w1, tr @ [ModelCall ctx])"
    then show ?thesis using Suc by auto
  next
    assume "\<exists>ctx1 w1 more.
        rounds E llm n2t (Suc j) ctx w tr = rounds E llm n2t j ctx1 w1 (tr @ ModelCall ctx # more)"
    then obtain ctx1 w1 more where
      eq: "rounds E llm n2t (Suc j) ctx w tr = rounds E llm n2t j ctx1 w1 (tr @ ModelCall ctx # more)"
      by blast
    obtain es where "snd (snd (rounds E llm n2t j ctx1 w1 (tr @ ModelCall ctx # more)))
        = (tr @ ModelCall ctx # more) @ es"
      using rounds_trace_prefix [of E llm n2t j ctx1 w1 "tr @ ModelCall ctx # more"] by blast
    then show ?thesis using Suc eq by simp
  qed
qed

lemma rounds_count:
  assumes stub: "\<forall>c w. \<exists>resp w1 tn ta. llm c w = (Inr resp, w1)
            \<and> parse_tool_call (json_loads E) (py_repr E) resp = Some (tn, ta) \<and> n2t tn \<noteq> None"
  shows "\<exists>ans w' tr' c w0. rounds E llm n2t k ctx w tr = (ans, w', tr')
           \<and> length (model_calls tr') = length (model_calls tr) + k + 1
           \<and> last tr' = ModelCall (c @ final_hint)
           \<and> llm (c @ final_hint) w0 = (Inr ans, w')"
proof (induction k arbitrary: ctx w tr)
  case 0
  obtain resp w1 where "llm (ctx @ final_hint) w = (Inr resp, w1)" using stub by blast
  then show ?case by (auto simp: model_calls_append)
next
  case (Suc k)
  obtain resp w1 tn ta where l: "llm ctx w = (Inr resp, w1)"
    and p: "parse_tool_call (json_loads E) (py_repr E) resp = Some (tn, ta)"
    and n: "n2t tn \<noteq> None" using stub by blast
  from n obtain tool where t: "n2t tn = Some tool" by auto
  obtain r w2 where f: "func tool ta w1 = (r, w2)" by (cases "func tool ta w1")
  let ?ctx = "after_tool ctx resp (observation tn ta
        (case r of Inr res \<Rightarrow> res | Inl e \<Rightarrow> tool_exception e) (elapsed_2f E w1 w2))"
  have eq: "rounds E llm n2t (Suc k) ctx w tr =
      rounds E llm n2t k ?ctx w2 (tr @ [ModelCall ctx, ToolCall tn ta])"
    using l p t f by (simp add: Let_def)
  show ?case
    unfolding eq
    using Suc.IH [of ?ctx w2 "tr @ [ModelCall ctx, ToolCall tn ta]"]
    by (auto simp: model_calls_append)
qed

lemmas str_defs = ascii_def strip_def lstrip_def rstrip_def is_space_def is_linebreak_def
  splitlines_def ci_match_def is_name_char_def json_group_here_def TOOL_CALL_RE_match_def

subsection \<open>The time-query short circuit\<close>

text \<open>
  Claim C3. When the prompt matches the time-query pattern, \<open>run_with_tools\<close> returns an
  answer that contains the decimal text of the current local year, and it makes no call at
  all: the trace of calls is empty, so the model function is invoked zero times.
\<close>

theorem time_query_fast_path:
  "TIME_QUERY_RE_search user_prompt \<Longrightarrow>
     (\<exists>ans. run_with_tools E llm_callable user_prompt tools system_prompt max_tool_calls w
               = (ans, w, [])
        \<and> contains ans (str_int (now_year E w)))"
  using contains_mid [of "[0x4ECA, 0x5E74, 0x662F] @ ascii '' ''" "str_int (now_year E w)"
      "ascii '' '' @ [0x5E74, 0x3002]"]
  by (simp add: run_with_tools_def answer_time_shortcircuit_def)

theorem time_query_fast_path_witness:
  "TIME_QUERY_RE_search [0x4ECA, 0x5E74, 0x662F, 0x54EA, 0x5E74, 0xFF1F]
   \<and> run_with_tools example_env stub_llm [0x4ECA, 0x5E74, 0x662F, 0x54EA, 0x5E74, 0xFF1F]
         [noop_tool] None 3 ()
       = ([0x4ECA, 0x5E74, 0x662F] @ ascii '' 2026 '' @ [0x5E74, 0x3002], (), [])
   \<and> contains ([0x4ECA, 0x5E74, 0x662F] @ ascii '' 2026 '' @ [0x5E74, 0x3002]) (ascii ''2026'')"
proof -
  have h: "TIME_QUERY_RE_search [0x4ECA, 0x5E74, 0x662F, 0x54EA, 0x5E74, 0xFF1F]"
    by (simp add: TIME_QUERY_RE_search_def time_phrases_def)
  have y: "str_int 2026 = ascii ''2026''" by code_simp
  show ?thesis
    using h time_query_fast_path [OF h, of example_env stub_llm "[noop_tool]" None 3 "()"]
    by (simp add: run_with_tools_def answer_time_shortcircuit_def example_env_def y ascii_def)
qed




subsection \<open>Unknown tools\<close>

lemma parse_noop: "parse_tool_call L R (ascii ''CALL_TOOL: Noop'') = Some (ascii ''Noop'', [])"
  by (simp add: parse_tool_call_def str_defs)

text \<open>
  Claim C4. In a round in which the model's response parses to a directive whose tool name
  is not in the registry, the loop does not return: it goes on with one round fewer left
  and with the error observation appended to the context. The model is called again (in
  the next round or, when no round is left, for the forced answer), and the context of
  that call contains the unknown tool's name.
\<close>

theorem unknown_tool_continues:
  assumes "llm_callable context w = (Inr response, w1)"
    and "parse_tool_call (json_loads E) (py_repr E) response = Some (tool_name, tool_args)"
    and "name2tool tools tool_name = None"
  shows "rounds E llm_callable (name2tool tools) (Suc k) context w tr =
           rounds E llm_callable (name2tool tools) k (context @ tool_error tool_name response) w1
             (tr @ [ModelCall context])
         \<and> (\<exists>c es. snd (snd (rounds E llm_callable (name2tool tools) (Suc k) context w tr)) =
               tr @ ModelCall context # ModelCall c # es
             \<and> contains c tool_name)"
proof -
  let ?ctx = "context @ tool_error tool_name response"
  have eq: "rounds E llm_callable (name2tool tools) (Suc k) context w tr =
           rounds E llm_callable (name2tool tools) k ?ctx w1 (tr @ [ModelCall context])"
    using assms by simp
  obtain es where es:
    "snd (snd (rounds E llm_callable (name2tool tools) k ?ctx w1 (tr @ [ModelCall context]))) =
       (tr @ [ModelCall context]) @ ModelCall (if k = 0 then ?ctx @ final_hint else ?ctx) # es"
    using rounds_first_call [of E llm_callable "name2tool tools" k ?ctx w1 "tr @ [ModelCall context]"]
    by blast
  have c0: "contains (?ctx @ z) tool_name" for z
    using contains_mid [of "context @ [0xA, 0xA] @ ascii ''[ToolError] ''
         @ [0x672A, 0x627E, 0x5230, 0x5DE5, 0x5177] @ ascii '': ''" tool_name
       "[0xA, 0x6A21, 0x578B, 0x539F, 0x6587] @ ascii '':'' @ [0xA] @ response
         @ [0xA, 0x8BF7, 0x4E0D, 0x8981, 0x518D, 0x5C1D, 0x8BD5, 0x8C03, 0x7528, 0x4E0D, 0x5B58,
            0x5728, 0x7684, 0x5DE5, 0x5177, 0x3002] @ z"]
    by (simp add: tool_error_def)
  have c: "contains (if k = 0 then ?ctx @ final_hint else ?ctx) tool_name"
    using c0 [of final_hint] c0 [of "[]"] by simp
  show ?thesis using eq es c by auto
qed

theorem unknown_tool_continues_witness:
  "stub_llm (ascii ''hi'') () = (Inr (ascii ''CALL_TOOL: Noop''), ())
   \<and> parse_tool_call (json_loads example_env) (py_repr example_env) (ascii ''CALL_TOOL: Noop'')
       = Some (ascii ''Noop'', [])
   \<and> name2tool ([] :: unit Tool list) (ascii ''Noop'') = None
   \<and> (\<exists>c es. snd (snd (rounds example_env stub_llm (name2tool []) (Suc 0) (ascii ''hi'') () []))
               = ModelCall (ascii ''hi'') # ModelCall c # es
             \<and> contains c (ascii ''Noop''))"
proof -
  have 1: "stub_llm (ascii ''hi'') () = (Inr (ascii ''CALL_TOOL: Noop''), ())"
    by (simp add: stub_llm_def)
  have 2: "parse_tool_call (json_loads example_env) (py_repr example_env) (ascii ''CALL_TOOL: Noop'')
       = Some (ascii ''Noop'', [])"
    by (rule parse_noop)
  have 3: "name2tool ([] :: unit Tool list) (ascii ''Noop'') = None"
    by (simp add: name2tool_def)
  show ?thesis
    using 1 2 3
      unknown_tool_continues [where llm_callable = stub_llm and E = example_env
        and tools = "[]" and k = 0 and tr = "[]", OF 1 2 3]
    by simp
qed

subsection \<open>The round budget\<close>

lemma stub_llm_valid:
  "\<forall>c w. \<exists>resp w1 tn ta. stub_llm c w = (Inr resp, w1)
      \<and> parse_tool_call (json_loads example_env) (py_repr example_env) resp = Some (tn, ta)
      \<and> name2tool [noop_tool] tn \<noteq> None"
  by (simp add: stub_llm_def parse_noop name2tool_def noop_tool_def)

lemma not_time_hi: "\<not> TIME_QUERY_RE_search (ascii ''hi'')"
  by (simp add: TIME_QUERY_RE_search_def time_phrases_def ascii_def)

text \<open>
  Claim C1, as amended. Let the prompt not match the time-query pattern, let \<open>N \<ge> 0\<close>, and
  let every response of the model function parse to a directive that names a registered
  tool. Then \<open>run_with_tools\<close> with \<open>max_tool_calls = N\<close> calls the model exactly \<open>N + 2\<close>
  times: \<open>N + 1\<close> times in the loop over \<^verbatim>\<open>range(max_tool_calls + 1)\<close> and once more for the
  forced answer. The last call is the forced-answer call (its context ends with the
  instruction to answer now) and what it returns is the result.
\<close>

theorem round_budget:
  assumes "\<forall>c w. \<exists>resp w1 tn ta. llm_callable c w = (Inr resp, w1)
            \<and> parse_tool_call (json_loads E) (py_repr E) resp = Some (tn, ta)
            \<and> name2tool tools tn \<noteq> None"
    and "\<not> TIME_QUERY_RE_search user_prompt"
    and "0 \<le> N"
  shows "\<exists>ans w' tr c w0. run_with_tools E llm_callable user_prompt tools system_prompt N w = (ans, w', tr)
           \<and> length (model_calls tr) = nat N + 2
           \<and> last tr = ModelCall (c @ final_hint)
           \<and> llm_callable (c @ final_hint) w0 = (Inr ans, w')"
proof -
  have k: "nat (N + 1) = nat N + 1" using assms(3) by simp
  show ?thesis
    using rounds_count [OF assms(1), of "nat (N + 1)" _ w "[]"] assms(2)
    by (simp add: run_with_tools_def answer_time_shortcircuit_def Let_def k model_calls_append)
qed

theorem round_budget_witness:
  "(\<forall>c w. \<exists>resp w1 tn ta. stub_llm c w = (Inr resp, w1)
      \<and> parse_tool_call (json_loads example_env) (py_repr example_env) resp = Some (tn, ta)
      \<and> name2tool [noop_tool] tn \<noteq> None)
   \<and> \<not> TIME_QUERY_RE_search (ascii ''hi'') \<and> (0::int) \<le> 1
   \<and> (\<exists>ans w' tr c w0. run_with_tools example_env stub_llm (ascii ''hi'') [noop_tool] None 1 () = (ans, w', tr)
           \<and> length (model_calls tr) = 3
           \<and> last tr = ModelCall (c @ final_hint)
           \<and> stub_llm (c @ final_hint) w0 = (Inr ans, w'))"
proof -
  have z: "(0::int) \<le> 1" by simp
  show ?thesis
    using stub_llm_valid not_time_hi round_budget [OF stub_llm_valid not_time_hi z, of None "()"]
    by (simp add: numeral_3_eq_3 numeral_2_eq_2)
qed

text \<open>
  The claim as first stated (exactly \<open>N + 1\<close> model calls) fails at \<open>N = 0\<close>: the model is called
  twice.
\<close>

theorem round_budget_counterexample:
  "length (model_calls (snd (snd (run_with_tools example_env stub_llm (ascii ''hi'') [noop_tool] None 0 ())))) = 2
   \<and> length (model_calls (snd (snd (run_with_tools example_env stub_llm (ascii ''hi'') [noop_tool] None 0 ())))) \<noteq> 0 + 1"
proof -
  have z: "(0::int) \<le> 0" by simp
  obtain ans w' tr c w0 where
    "run_with_tools example_env stub_llm (ascii ''hi'') [noop_tool] None 0 () = (ans, w', tr)"
    "length (model_calls tr) = nat 0 + 2"
    using rounds_count [OF stub_llm_valid, of "nat (0 + 1)" _ "()" "[]"] not_time_hi
    by (simp add: run_with_tools_def answer_time_shortcircuit_def Let_def) blast
  then show ?thesis by simp
qed

subsection \<open>The observation of a tool result\<close>

lemma parse_big: "parse_tool_call L R (ascii ''CALL_TOOL: Big'') = Some (ascii ''Big'', [])"
  by (simp add: parse_tool_call_def str_defs)

lemma run_big:
  "run_with_tools example_env big_llm (ascii ''hi'') [big_tool res] None 0 () =
     (ascii ''CALL_TOOL: Big'', (),
      [ModelCall (ascii ''hi''), ToolCall (ascii ''Big'') [],
       ModelCall (after_tool (ascii ''hi'') (ascii ''CALL_TOOL: Big'')
          (observation (ascii ''Big'') [] res (ascii ''0.00'')) @ final_hint)])"
proof -
  have s: "strip (ascii ''hi'') = ascii ''hi''" by (simp add: str_defs)
  have i: "inject_persona_to_system example_env None = []"
    by (simp add: example_env_def inject_persona_fallback_def)
  have e: "elapsed_2f example_env w1 w2 = ascii ''0.00''" for w1 w2
    by (simp add: example_env_def)
  have n: "name2tool [big_tool res] (ascii ''Big'') = Some (big_tool res)"
    by (simp add: name2tool_def big_tool_def)
  have f: "func (big_tool res) a w = (Inr res, w)" for a w by (simp add: big_tool_def)
  have one: "nat (0 + 1) = Suc 0" by simp
  show ?thesis
    using not_time_hi
    by (simp add: run_with_tools_def answer_time_shortcircuit_def Let_def s i e n f one
        big_llm_def parse_big)
qed

lemma observation_embeds_result:
  "contains (after_tool context response (observation tool_name tool_args tool_result elapsed) @ z)
     tool_result
   \<and> length tool_result
       < length (after_tool context response (observation tool_name tool_args tool_result elapsed) @ z)"
proof -
  let ?pre = "context @ [0xA, 0xA] @ strip response @ [0xA] @ [0xA, 0xA] @ ascii ''[ToolInvocation]''
      @ [0xA] @ ascii ''Tool: '' @ tool_name @ [0xA] @ ascii ''Args: '' @ tool_args
      @ [0xA] @ ascii ''Result (truncated):'' @ [0xA]"
  let ?post = "[0xA] @ ascii ''('' @ [0x6267, 0x884C, 0x8017, 0x65F6] @ ascii '': '' @ elapsed
      @ ascii ''s)'' @ [0xA] @ continue_hint @ z"
  have eq: "after_tool context response (observation tool_name tool_args tool_result elapsed) @ z
      = ?pre @ tool_result @ ?post"
    by (simp add: after_tool_def observation_def)
  show ?thesis
    unfolding eq using contains_mid [of ?pre tool_result ?post] by simp
qed

text \<open>
  Claim C2. The claim asks that the tool result embedded in the observation be cut to about
  1000 characters. The code embeds it whole (lemma \<open>observation_embeds_result\<close>): with a tool
  that returns 5000 characters and \<open>max_tool_calls = 0\<close>, the model is called twice, and the
  context of the second call contains all 5000 characters.
\<close>

theorem observation_not_truncated:
  "\<exists>c. model_calls (snd (snd (run_with_tools example_env big_llm (ascii ''hi'')
           [big_tool (replicate 5000 0x78)] None 0 ()))) = [ascii ''hi'', c]
       \<and> contains c (replicate 5000 0x78) \<and> 5000 < length c"
proof -
  let ?res = "replicate 5000 (0x78::nat)"
  let ?c = "after_tool (ascii ''hi'') (ascii ''CALL_TOOL: Big'')
          (observation (ascii ''Big'') [] ?res (ascii ''0.00'')) @ final_hint"
  have m: "model_calls (snd (snd (run_with_tools example_env big_llm (ascii ''hi'')
           [big_tool ?res] None 0 ()))) = [ascii ''hi'', ?c]"
    unfolding run_big by simp
  have c: "contains ?c ?res" and "length ?res < length ?c"
    using observation_embeds_result
      [of "ascii ''hi''" "ascii ''CALL_TOOL: Big''" "ascii ''Big''" "[]" ?res "ascii ''0.00''" final_hint]
    by blast+
  then have l: "5000 < length ?c" by (simp only: length_replicate)
  show ?thesis using m c l by blast
qed

subsection \<open>Parsing a tool call\<close>





















section \<open>Properties of the memory store\<close>

subsection \<open>Eviction\<close>

lemma trim_lists:
  assumes "texts st = JArr ts" "metadatas st = JArr ms" "length ts = length ms"
  shows "trim st = (if max_items st \<le> int (length ts) \<and> ts \<noteq> []
                    then st\<lparr>texts := JArr (tl ts), metadatas := JArr (tl ms)\<rparr> else st)"
proof (cases ts)
  case Nil
  with assms show ?thesis by (simp add: trim_def)
next
  case (Cons x xs)
  with assms obtain y ys where "ms = y # ys" by (cases ms) auto
  with Cons assms show ?thesis by (simp add: trim_def)
qed

text \<open>
  Claim C6, as amended. Let \<open>texts\<close> and \<open>metadatas\<close> be lists of the same length. Then \<open>add\<close>
  returns an index and leaves two lists of the same length. When the store is not empty and
  holds at least \<open>max_items\<close> records, the record at index 0 is removed from both lists and
  the new record is appended, so every later record moves down by one and the new index is
  the old length minus one. When the store holds fewer than \<open>max_items\<close> records, or is
  empty, the new record is appended and nothing is removed.
\<close>

theorem add_eviction:
  assumes "texts st = JArr ts" and "metadatas st = JArr ms" and "length ts = length ms"
  shows "\<exists>ts1 ms1 idx.
           add now txt meta st = (Inr idx, st\<lparr>texts := JArr ts1, metadatas := JArr ms1\<rparr>)
         \<and> length ts1 = length ms1
         \<and> (max_items st \<le> int (length ts) \<and> ts \<noteq> [] \<longrightarrow>
              (\<exists>x xs y ys. ts = x # xs \<and> ms = y # ys
                 \<and> ts1 = xs @ [JStr txt] \<and> ms1 = ys @ [new_meta now meta] \<and> idx = length xs
                 \<and> (\<forall>i < length xs. ts1 ! i = ts ! Suc i \<and> ms1 ! i = ms ! Suc i)))
         \<and> (int (length ts) < max_items st \<or> ts = [] \<longrightarrow>
              ts1 = ts @ [JStr txt] \<and> ms1 = ms @ [new_meta now meta] \<and> idx = length ts)"
proof (cases "max_items st \<le> int (length ts) \<and> ts \<noteq> []")
  case True
  then obtain x xs where ts: "ts = x # xs" by (cases ts) auto
  with assms obtain y ys where ms: "ms = y # ys" by (cases ms) auto
  have t: "trim st = st\<lparr>texts := JArr xs, metadatas := JArr ys\<rparr>"
    using trim_lists [OF assms] True ts ms by simp
  have a: "add now txt meta st =
      (Inr (length xs), st\<lparr>texts := JArr (xs @ [JStr txt]), metadatas := JArr (ys @ [new_meta now meta])\<rparr>)"
    by (simp add: add_def t)
  have l: "length xs = length ys" using assms ts ms by simp
  have n: "\<forall>i < length xs. (xs @ [JStr txt]) ! i = ts ! Suc i \<and> (ys @ [new_meta now meta]) ! i = ms ! Suc i"
    using ts ms l by (simp add: nth_append)
  show ?thesis using a l n ts ms True by auto
next
  case False
  have t: "trim st = st" using trim_lists [OF assms] False by simp
  have a: "add now txt meta st =
      (Inr (length ts), st\<lparr>texts := JArr (ts @ [JStr txt]), metadatas := JArr (ms @ [new_meta now meta])\<rparr>)"
    using assms by (simp add: add_def t)
  show ?thesis using a assms False by auto
qed

theorem add_eviction_witness:
  "texts full_store = JArr [JStr (ascii ''a''), JStr (ascii ''b'')]
   \<and> metadatas full_store = JArr [JObj [(ascii ''type'', JStr (ascii ''turn''))], JObj [(ascii ''type'', JStr (ascii ''note''))]]
   \<and> max_items full_store \<le> 2
   \<and> add 0 (ascii ''c'') JNull full_store =
       (Inr 1, full_store\<lparr>texts := JArr [JStr (ascii ''b''), JStr (ascii ''c'')],
                          metadatas := JArr [JObj [(ascii ''type'', JStr (ascii ''note''))],
                                             JObj [(ascii ''timestamp'', JFloat 0)]]\<rparr>)"
proof -
  have 1: "texts full_store = JArr [JStr (ascii ''a''), JStr (ascii ''b'')]"
    and 2: "metadatas full_store = JArr [JObj [(ascii ''type'', JStr (ascii ''turn''))], JObj [(ascii ''type'', JStr (ascii ''note''))]]"
    by (simp_all add: full_store_def)
  have 3: "length [JStr (ascii ''a''), JStr (ascii ''b'')]
      = length [JObj [(ascii ''type'', JStr (ascii ''turn''))], JObj [(ascii ''type'', JStr (ascii ''note''))]]"
    by simp
  have m: "max_items full_store = 2" by (simp add: full_store_def)
  from add_eviction [OF 1 2 3, of 0 "ascii ''c''" JNull]
  obtain ts1 ms1 idx where a: "add 0 (ascii ''c'') JNull full_store = (Inr idx, full_store\<lparr>texts := JArr ts1, metadatas := JArr ms1\<rparr>)"
    and e: "ts1 = [JStr (ascii ''b'')] @ [JStr (ascii ''c'')]"
       "ms1 = [JObj [(ascii ''type'', JStr (ascii ''note''))]] @ [new_meta 0 JNull]" "idx = 1"
    using m by auto
  show ?thesis using 1 2 m a e by (simp add: new_meta_def)
qed

text \<open>
  The claim as first stated (a record is removed whenever the store holds at least
  \<open>max_items\<close> records) fails for the empty store with \<open>max_items = 0\<close>: it holds 0 records,
  which is at least \<open>max_items\<close>, and after \<open>add\<close> it holds one record, none removed.
\<close>

theorem add_eviction_counterexample:
  "texts empty_store = JArr [] \<and> metadatas empty_store = JArr []
   \<and> max_items empty_store \<le> int (length ([] :: json list))
   \<and> add 0 (ascii ''a'') JNull empty_store =
       (Inr 0, empty_store\<lparr>texts := JArr [JStr (ascii ''a'')],
                           metadatas := JArr [JObj [(ascii ''timestamp'', JFloat 0)]]\<rparr>)"
  by (simp add: empty_store_def add_def trim_def new_meta_def)

subsection \<open>Persistence\<close>

lemma persist_body_cases:
  "persist_body E st files = (r, files1) \<Longrightarrow>
     (r = Inr True \<and> (dirname E (path st) = [] \<or> makedirs_ok E)
        \<and> (\<exists>tmppath doc. mkstemp E = Some tmppath \<and> json_dump E (state_doc st) = Some doc
              \<and> files1 = (files(tmppath := None))(path st \<mapsto> doc))
        \<and> write_fault E = None \<and> replace_ok E \<and> log_success E st = None)
   \<or> ((\<exists>e. r = Inl e)
        \<and> \<not> ((dirname E (path st) = [] \<or> makedirs_ok E) \<and> mkstemp E \<noteq> None
              \<and> json_dump E (state_doc st) \<noteq> None \<and> write_fault E = None \<and> replace_ok E
              \<and> log_success E st = None)
        \<and> (files1 = files
            \<or> (\<exists>tmppath junk. mkstemp E = Some tmppath \<and> files1 = files(tmppath \<mapsto> junk))
            \<or> (\<exists>tmppath doc. mkstemp E = Some tmppath \<and> json_dump E (state_doc st) = Some doc
                  \<and> files1 = (files(tmppath := None))(path st \<mapsto> doc))))"
  by (auto simp: persist_body_def split: if_splits option.splits)

text \<open>
  Claim C8. \<open>persist\<close> always returns a boolean and never an exception. It returns \<open>True\<close>
  exactly when no step failed, and then the whole document was written to the temporary
  file and the temporary file was moved onto the store's path. Whatever happens, when the
  temporary path is not the store's path, the file at the store's path is either what it
  was before or the whole new document: a partly written text is never there.
\<close>

theorem persist_never_raises:
  "\<exists>b files1. persist E st files = (Inr b, files1)
     \<and> b = ((dirname E (path st) = [] \<or> makedirs_ok E) \<and> mkstemp E \<noteq> None
            \<and> json_dump E (state_doc st) \<noteq> None \<and> write_fault E = None \<and> replace_ok E
            \<and> log_success E st = None)
     \<and> (b \<longrightarrow> (\<exists>tmppath doc. mkstemp E = Some tmppath \<and> json_dump E (state_doc st) = Some doc
                   \<and> files1 = (files(tmppath := None))(path st \<mapsto> doc)))
     \<and> (mkstemp E \<noteq> Some (path st) \<longrightarrow>
          files1 (path st) = files (path st)
          \<or> (\<exists>doc. json_dump E (state_doc st) = Some doc \<and> files1 (path st) = Some doc))"
proof -
  obtain r files1 where pb: "persist_body E st files = (r, files1)"
    by (cases "persist_body E st files")
  from persist_body_cases [OF pb] show ?thesis
  proof
    assume "r = Inr True \<and> (dirname E (path st) = [] \<or> makedirs_ok E)
        \<and> (\<exists>tmppath doc. mkstemp E = Some tmppath \<and> json_dump E (state_doc st) = Some doc
              \<and> files1 = (files(tmppath := None))(path st \<mapsto> doc))
        \<and> write_fault E = None \<and> replace_ok E \<and> log_success E st = None"
    then show ?thesis using pb by (auto simp: persist_def)
  next
    assume a: "(\<exists>e. r = Inl e)
        \<and> \<not> ((dirname E (path st) = [] \<or> makedirs_ok E) \<and> mkstemp E \<noteq> None
              \<and> json_dump E (state_doc st) \<noteq> None \<and> write_fault E = None \<and> replace_ok E
              \<and> log_success E st = None)
        \<and> (files1 = files
            \<or> (\<exists>tmppath junk. mkstemp E = Some tmppath \<and> files1 = files(tmppath \<mapsto> junk))
            \<or> (\<exists>tmppath doc. mkstemp E = Some tmppath \<and> json_dump E (state_doc st) = Some doc
                  \<and> files1 = (files(tmppath := None))(path st \<mapsto> doc)))"
    then obtain e where e: "r = Inl e" by blast
    have p: "persist E st files = (Inr False, files1)" using pb e by (simp add: persist_def)
    have v: "mkstemp E \<noteq> Some (path st) \<longrightarrow>
          files1 (path st) = files (path st)
          \<or> (\<exists>doc. json_dump E (state_doc st) = Some doc \<and> files1 (path st) = Some doc)"
      using a by auto
    show ?thesis using p a v by blast
  qed
qed

lemma persist_sample:
  "persist sample_env sample_store Map.empty = (Inr True, [ascii ''m.json'' \<mapsto> sample_text])"
  by (simp add: persist_def persist_body_def sample_env_def sample_store_def log_success_def fun_upd_twist)

theorem persist_never_raises_witness:
  "persist sample_env sample_store Map.empty = (Inr True, [ascii ''m.json'' \<mapsto> sample_text])
   \<and> mkstemp sample_env = Some (ascii ''.tmp.k3x9q2ab.json'')
   \<and> mkstemp sample_env \<noteq> Some (path sample_store)
   \<and> json_dump sample_env (state_doc sample_store) = Some sample_text
   \<and> write_fault sample_env = None \<and> replace_ok sample_env"
proof -
  have m: "mkstemp sample_env \<noteq> Some (path sample_store)"
    by (simp add: sample_env_def sample_store_def ascii_def)
  show ?thesis
    using persist_never_raises [of sample_env sample_store Map.empty] persist_sample m
    by (simp add: sample_env_def)
qed

text \<open>
  Claim C7. Let \<open>persist\<close> return \<open>True\<close>, and let the document be JSON-representable: the text
  \<open>doc\<close> that \<^verbatim>\<open>json.dump\<close> wrote is decoded by \<^verbatim>\<open>json.load\<close> to the same document. Then a fresh store
  constructed on the same path (the file can be read and \<^verbatim>\<open>AGENT_MAX_MEMORY_ITEMS\<close> is a
  valid integer) has the same \<open>texts\<close> and the same \<open>metadatas\<close>, element for element and in
  the same order.
\<close>

theorem persist_load_roundtrip:
  assumes "persist E st files = (Inr True, files1)"
    and "json_dump E (state_doc st) = Some doc"
    and "json_load E1 doc = Some (state_doc st)"
    and "expanduser E1 p = path st"
    and "read_ok E1"
    and "py_int E1 (case getenv_max E1 of None \<Rightarrow> ascii ''10000'' | Some v \<Rightarrow> v) = Some m"
  shows "\<exists>st1. init E1 p files1 = Inr st1 \<and> texts st1 = texts st \<and> metadatas st1 = metadatas st
           \<and> path st1 = path st"
proof -
  obtain r where pb: "persist_body E st files = (r, files1)" and r: "r = Inr True"
    using assms(1) by (auto simp: persist_def split: prod.splits sum.splits)
  from persist_body_cases [OF pb] r obtain tmppath where
    f: "files1 = (files(tmppath := None))(path st \<mapsto> doc)"
    using assms(2) by auto
  have c: "files1 (path st) = Some doc" using f by simp
  have neq: "ascii ''metadatas'' \<noteq> ascii ''texts''" by (simp add: ascii_def)
  show ?thesis
    using assms(3,4,5,6) c neq
    by (simp add: init_def Let_def state_doc_def dict_get_default_def)
qed

theorem persist_load_roundtrip_witness:
  "persist sample_env sample_store Map.empty = (Inr True, [ascii ''m.json'' \<mapsto> sample_text])
   \<and> json_dump sample_env (state_doc sample_store) = Some sample_text
   \<and> json_load sample_env sample_text = Some (state_doc sample_store)
   \<and> expanduser sample_env (ascii ''m.json'') = path sample_store
   \<and> read_ok sample_env
   \<and> py_int sample_env (case getenv_max sample_env of None \<Rightarrow> ascii ''10000'' | Some v \<Rightarrow> v)
       = Some 10000
   \<and> init sample_env (ascii ''m.json'') [ascii ''m.json'' \<mapsto> sample_text] = Inr sample_store"
proof -
  have 2: "json_dump sample_env (state_doc sample_store) = Some sample_text"
    by (simp add: sample_env_def)
  have 3: "json_load sample_env sample_text = Some (state_doc sample_store)"
    by (simp add: sample_env_def)
  have 4: "expanduser sample_env (ascii ''m.json'') = path sample_store"
    by (simp add: sample_env_def sample_store_def)
  have 5: "read_ok sample_env" by (simp add: sample_env_def)
  have 6: "py_int sample_env (case getenv_max sample_env of None \<Rightarrow> ascii ''10000'' | Some v \<Rightarrow> v)
      = Some 10000"
    by (simp add: sample_env_def)
  from persist_load_roundtrip [OF persist_sample 2 3 4 5 6]
  obtain st1 where i: "init sample_env (ascii ''m.json'') [ascii ''m.json'' \<mapsto> sample_text] = Inr st1"
    and e: "texts st1 = texts sample_store" "metadatas st1 = metadatas sample_store"
      "path st1 = path sample_store"
    by blast
  have mx: "max_items st1 = 10000"
    using i by (auto simp: init_def sample_env_def Let_def split: option.splits if_splits json.splits)
  have "st1 = sample_store" using e mx by (simp add: sample_store_def)
  then show ?thesis using persist_sample 2 3 4 5 6 i by simp
qed

section \<open>Properties of the page-fetch tool\<close>

lemma render_loop_props:
  "render_loop E url t k a n le gs = (r, n1, le1, gs1) \<Longrightarrow>
     (\<exists>new. gs1 = gs @ new \<and> list_all (\<lambda>(i, ms). ms = t * 2 ^ i * 1000 \<and> a \<le> i \<and> i < a + k) new)
     \<and> (case r of
          Some res \<Rightarrow>
            source res = ascii ''playwright'' \<and> attempts res = n1
            \<and> (\<exists>i. a \<le> i \<and> i < a + k \<and> n1 = n + (i - a) + 1 \<and> launch E i = None
                  \<and> goto E url i (t * 2 ^ i * 1000) = Inr (page_text res)
                  \<and> (\<forall>j. a \<le> j \<and> j < i \<longrightarrow> try_fails E url t j))
        | None \<Rightarrow> n1 = n + k \<and> (\<forall>i. a \<le> i \<and> i < a + k \<longrightarrow> try_fails E url t i))"
proof (induction k arbitrary: a n le gs)
  case 0
  then show ?case by auto
next
  case (Suc k)
  have step: ?case
    if rec: "render_loop E url t k (Suc a) (Suc n) le2 gs2 = (r, n1, le1, gs1)"
      and fa: "try_fails E url t a"
      and gs2: "gs2 = gs \<or> gs2 = gs @ [(a, t * 2 ^ a * 1000)]"
    for le2 gs2
  proof -
    note ih = Suc.IH [OF rec]
    from ih obtain new where new: "gs1 = gs2 @ new"
      "list_all (\<lambda>(i, ms). ms = t * 2 ^ i * 1000 \<and> Suc a \<le> i \<and> i < Suc a + k) new" by blast
    have new': "list_all (\<lambda>(i, ms). ms = t * 2 ^ i * 1000 \<and> a \<le> i \<and> i < a + Suc k) new"
      using new(2) by (auto simp: list_all_iff)
    from gs2 have g: "\<exists>new. gs1 = gs @ new
        \<and> list_all (\<lambda>(i, ms). ms = t * 2 ^ i * 1000 \<and> a \<le> i \<and> i < a + Suc k) new"
    proof
      assume "gs2 = gs"
      with new(1) new' show ?thesis by blast
    next
      assume "gs2 = gs @ [(a, t * 2 ^ a * 1000)]"
      with new(1) have "gs1 = gs @ ((a, t * 2 ^ a * 1000) # new)" by simp
      moreover have "list_all (\<lambda>(i, ms). ms = t * 2 ^ i * 1000 \<and> a \<le> i \<and> i < a + Suc k)
          ((a, t * 2 ^ a * 1000) # new)" using new' by simp
      ultimately show ?thesis by blast
    qed
    have low: "try_fails E url t j" if "a \<le> j" "j < i" "\<forall>j. Suc a \<le> j \<and> j < i \<longrightarrow> try_fails E url t j" for i j
      using that fa by (cases "j = a") auto
    show ?thesis
    proof (cases r)
      case None
      with ih have n: "n1 = Suc n + k"
        and f: "\<forall>i. Suc a \<le> i \<and> i < Suc a + k \<longrightarrow> try_fails E url t i" by auto
      have "\<forall>i. a \<le> i \<and> i < a + Suc k \<longrightarrow> try_fails E url t i"
        using low [of _ "Suc a + k"] f by auto
      with g n None show ?thesis by simp
    next
      case (Some res)
      with ih obtain i where i: "source res = ascii ''playwright''" "attempts res = n1"
        "Suc a \<le> i" "i < Suc a + k" "n1 = Suc n + (i - Suc a) + 1" "launch E i = None"
        "goto E url i (t * 2 ^ i * 1000) = Inr (page_text res)"
        "\<forall>j. Suc a \<le> j \<and> j < i \<longrightarrow> try_fails E url t j" by auto
      have "\<forall>j. a \<le> j \<and> j < i \<longrightarrow> try_fails E url t j" using low [of _ i] i(8) by auto
      with i have "a \<le> i \<and> i < a + Suc k \<and> n1 = n + (i - a) + 1 \<and> launch E i = None
          \<and> goto E url i (t * 2 ^ i * 1000) = Inr (page_text res)
          \<and> (\<forall>j. a \<le> j \<and> j < i \<longrightarrow> try_fails E url t j)" by auto
      with g Some i(1,2) show ?thesis by auto
    qed
  qed
  show ?case
  proof (cases "launch E a")
    case (Some x)
    with Suc.prems have "render_loop E url t k (Suc a) (Suc n) (Some (fail_msg x (a + 1))) gs
        = (r, n1, le1, gs1)" by simp
    moreover have "try_fails E url t a" using Some by (simp add: try_fails_def)
    ultimately show ?thesis using step by blast
  next
    case None
    show ?thesis
    proof (cases "goto E url a (t * 2 ^ a * 1000)")
      case (Inr content)
      with None Suc.prems have res: "r = Some \<lparr>source = ascii ''playwright'', page_text = content,
            error = None, attempts = Suc n\<rparr>"
        and n: "n1 = Suc n" and gs: "gs1 = gs @ [(a, t * 2 ^ a * 1000)]"
        by (auto simp: Let_def)
      have "a \<le> a \<and> a < a + Suc k \<and> n1 = n + (a - a) + 1 \<and> launch E a = None
          \<and> goto E url a (t * 2 ^ a * 1000) = Inr content
          \<and> (\<forall>j. a \<le> j \<and> j < a \<longrightarrow> try_fails E url t j)" using n None Inr by auto
      then show ?thesis using res n gs by auto
    next
      case (Inl x)
      with None Suc.prems have "render_loop E url t k (Suc a) (Suc n) (Some (fail_msg x (a + 1)))
          (gs @ [(a, t * 2 ^ a * 1000)]) = (r, n1, le1, gs1)"
        by (simp add: Let_def)
      moreover have "try_fails E url t a" using None Inl by (simp add: try_fails_def)
      ultimately show ?thesis using step by blast
    qed
  qed
qed

lemma below_range: "(i < nat (m + 1)) = (int i \<le> m)"
  by auto

text \<open>
  Claim C9. Every \<^verbatim>\<open>page.goto\<close> call of attempt \<open>i\<close> (counted from 0, at most \<open>max_retries\<close>) is
  given the timeout \<open>timeout * 2 ^ i\<close> seconds, in milliseconds. The result's \<open>source\<close> is
  \<^verbatim>\<open>playwright\<close>, \<^verbatim>\<open>requests\<close> or \<^verbatim>\<open>error\<close>, and \<open>attempts\<close> is at least 1. The source is
  \<^verbatim>\<open>playwright\<close> exactly when the import succeeded and some attempt up to \<open>max_retries\<close> did not
  fail; the result is then the page of the first such attempt \<open>i\<close>, with \<open>attempts = i + 1\<close>.
  Otherwise (the backend is unavailable or every attempt failed) the plain HTTP GET is made:
  \<open>attempts\<close> is the number of rendering attempts plus one, and the source is \<^verbatim>\<open>requests\<close>
  exactly when the GET succeeded.
\<close>

theorem fetch_backoff_and_report:
  "\<exists>res gs. fetch_rendered_page E url timeout max_retries = (res, gs)
     \<and> list_all (\<lambda>(i, ms). ms = timeout * 2 ^ i * 1000 \<and> int i \<le> max_retries) gs
     \<and> (source res = ascii ''playwright'' \<or> source res = ascii ''requests''
          \<or> source res = ascii ''error'')
     \<and> 1 \<le> attempts res
     \<and> (source res = ascii ''playwright'') =
         (pw_import E = None \<and> (\<exists>i. int i \<le> max_retries \<and> \<not> try_fails E url timeout i))
     \<and> (source res = ascii ''playwright'' \<longrightarrow>
          (\<exists>i. int i \<le> max_retries \<and> attempts res = i + 1 \<and> launch E i = None
             \<and> goto E url i (timeout * 2 ^ i * 1000) = Inr (page_text res)
             \<and> (\<forall>j < i. try_fails E url timeout j)))
     \<and> (source res \<noteq> ascii ''playwright'' \<longrightarrow>
          attempts res = (if pw_import E = None then nat (max_retries + 1) else 0) + 1
          \<and> (source res = ascii ''requests'')
              = (\<exists>body. requests_get E url (max (timeout * 2) 10) = Inr body))"
proof -
  have d1: "ascii ''requests'' \<noteq> ascii ''playwright''" "ascii ''error'' \<noteq> ascii ''playwright''"
    "ascii ''error'' \<noteq> ascii ''requests''" by (simp_all add: ascii_def)
  show ?thesis
  proof (cases "pw_import E")
    case (Some e)
    then show ?thesis
      using d1 by (cases "requests_get E url (max (timeout * 2) 10)")
        (simp_all add: fetch_rendered_page_def)
  next
    case None
    obtain r n1 le1 gs1 where rl:
      "render_loop E url timeout (nat (max_retries + 1)) 0 0 None [] = (r, n1, le1, gs1)"
      by (cases "render_loop E url timeout (nat (max_retries + 1)) 0 0 None []") auto
    note p = render_loop_props [OF rl]
    from p have g: "list_all (\<lambda>(i, ms). ms = timeout * 2 ^ i * 1000 \<and> int i \<le> max_retries) gs1"
      by (auto simp: list_all_iff)
    show ?thesis
    proof (cases r)
      case (Some res)
      with p obtain i where i: "source res = ascii ''playwright''" "attempts res = n1"
        "i < nat (max_retries + 1)" "n1 = i + 1" "launch E i = None"
        "goto E url i (timeout * 2 ^ i * 1000) = Inr (page_text res)"
        "\<forall>j < i. try_fails E url timeout j" by auto
      have nf: "\<not> try_fails E url timeout i" using i(5,6) by (simp add: try_fails_def)
      have le: "int i \<le> max_retries" using i(3) by auto
      have f: "fetch_rendered_page E url timeout max_retries = (res, gs1)"
        using None rl Some by (simp add: fetch_rendered_page_def)
      show ?thesis using f g i nf le None by auto
    next
      case None2: None
      with p have n: "n1 = nat (max_retries + 1)"
        and allf: "\<forall>i. i < nat (max_retries + 1) \<longrightarrow> try_fails E url timeout i" by auto
      have nx: "\<not> (\<exists>i. int i \<le> max_retries \<and> \<not> try_fails E url timeout i)"
        using allf by (auto simp: below_range)
      show ?thesis
      proof (cases "requests_get E url (max (timeout * 2) 10)")
        case (Inl e)
        have f: "fetch_rendered_page E url timeout max_retries =
            (\<lparr>source = ascii ''error'', page_text = [],
              error = Some (ascii ''playwright_failed: '' @ fmt_err le1
                              @ ascii ''; requests_failed: '' @ e),
              attempts = n1 + 1\<rparr>, gs1)"
          using None rl None2 Inl by (simp add: fetch_rendered_page_def)
        show ?thesis using f g n nx None Inl d1 by simp
      next
        case (Inr body)
        have f: "fetch_rendered_page E url timeout max_retries =
            (\<lparr>source = ascii ''requests'', page_text = body,
              error = Some (ascii ''playwright_failed: '' @ fmt_err le1), attempts = n1 + 1\<rparr>, gs1)"
          using None rl None2 Inr by (simp add: fetch_rendered_page_def)
        show ?thesis using f g n nx None Inr d1 by simp
      qed
    qed
  qed
qed

theorem fetch_backoff_and_report_witness:
  "fetch_rendered_page sample_fetch (ascii ''http://example.com'') 15 2 =
     (\<lparr>source = ascii ''playwright'', page_text = ascii ''<p>ok</p>'', error = None, attempts = 2\<rparr>,
      [(0, 15000), (1, 30000)])
   \<and> try_fails sample_fetch (ascii ''http://example.com'') 15 0
   \<and> \<not> try_fails sample_fetch (ascii ''http://example.com'') 15 1"
proof -
  have f: "fetch_rendered_page sample_fetch (ascii ''http://example.com'') 15 2 =
     (\<lparr>source = ascii ''playwright'', page_text = ascii ''<p>ok</p>'', error = None, attempts = 2\<rparr>,
      [(0, 15000), (1, 30000)])"
    by (simp add: fetch_rendered_page_def sample_fetch_def numeral_3_eq_3 Let_def)
  show ?thesis
    using fetch_backoff_and_report [of sample_fetch "ascii ''http://example.com''" 15 2] f
    by (simp add: try_fails_def sample_fetch_def)
qed

end
